theory Spec2Isabelle
  imports Complex_Main
begin

section \<open>The data-parallel A3C learner of ch11/01\_a3c\_data.py\<close>

text \<open>
  The embedding follows the source file function by function. Python floats and the
  tensors of the tensor library are read as real numbers. The float32 array that
  \<open>unpack_batch\<close> builds with numpy is not: its conversion and its arithmetic are
  operations of the model. Objects that the code allocates or mutates in place live in an
  explicit store; the calls into the tensor library, the network and the metric trackers
  are recorded in a trace, in the order the code makes them.
\<close>

subsection \<open>Hyperparameters (lines 18 to 27)\<close>

definition GAMMA :: real where
  "GAMMA = 99 / 100"

definition LEARNING_RATE :: real where
  "LEARNING_RATE = 1 / 1000"

definition ENTROPY_BETA :: real where
  "ENTROPY_BETA = 1 / 100"

definition BATCH_SIZE :: nat where
  "BATCH_SIZE = 128"

definition REWARD_STEPS :: nat where
  "REWARD_STEPS = 4"

definition CLIP_GRAD :: real where
  "CLIP_GRAD = 1 / 10"

definition PROCESSES_COUNT :: nat where
  "PROCESSES_COUNT = 4"

definition NUM_ENVS :: nat where
  "NUM_ENVS = 12"

subsection \<open>Transitions, the network, the store\<close>

type_synonym addr = nat

text \<open>
  A transition is ptan's named tuple \<open>ExperienceFirstLast\<close>: the tuple itself is
  immutable, its \<open>state\<close> and \<open>last_state\<close> fields refer to observation arrays in the
  store, \<open>last_state\<close> is \<open>None\<close> when the episode ended within the horizon.
\<close>

record experience =
  state :: addr
  action :: nat
  reward :: real
  last_state :: "addr option"

text \<open>
  Modelled from the spec: the network class \<open>common.AtariA2C\<close> lives in \<open>lib/common.py\<close>,
  which is not part of the sources at hand. It is taken as an opaque function with a
  policy head and a value head that is evaluated row by row on a batch of observations.
  The value output has one column per row (shape \<open>(n, 1)\<close>): \<open>unpack_batch\<close> reads it with
  \<open>[:, 0]\<close>.
\<close>

record net =
  policy_head :: "real list \<Rightarrow> real list"
  value_head :: "real list \<Rightarrow> real"

definition forward :: "net \<Rightarrow> real list list \<Rightarrow> real list list \<times> real list list" where
  "forward n xs = (map (policy_head n) xs, map (\<lambda>x. [value_head n x]) xs)"

datatype loss_id = Loss_policy | Loss_entropy_value

datatype payload = Scalar real | Vector "real list" | Matrix "real list list"

datatype event =
    Net_eval "real list list"
  | Unpack "experience list"
  | Zero_grad
  | Backward loss_id bool
  | Capture_grads "real list"
  | Clip_grad_norm real
  | Optimizer_step
  | Track string payload nat

text \<open>
  The store maps the address of every numpy array to its contents; \<open>next_free\<close> is the
  first address never handed out. \<open>trace\<close> is the list of library calls made so far.
\<close>

record world =
  mem :: "addr \<Rightarrow> real list"
  next_free :: addr
  trace :: "event list"

definition alloc :: "real list \<Rightarrow> world \<Rightarrow> addr \<times> world" where
  "alloc xs w = (next_free w, w\<lparr>mem := (mem w)(next_free w := xs), next_free := Suc (next_free w)\<rparr>)"

definition call_net :: "net \<Rightarrow> real list list \<Rightarrow> world \<Rightarrow> (real list list \<times> real list list) \<times> world" where
  "call_net n xs w = (forward n xs, w\<lparr>trace := trace w @ [Net_eval xs]\<rparr>)"

subsection \<open>unpack\_batch (lines 50 to 89)\<close>

record unpack_acc =
  states :: "addr list"
  actions :: "nat list"
  rewards :: "real list"
  not_done_idx :: "nat list"
  last_states :: "addr list"

text \<open>
  The loop of lines 62 to 68 over \<open>enumerate(batch)\<close>. \<open>np.array(x, copy=False)\<close> of an
  array is the array itself, so the lists hold the addresses of the transitions' arrays.
\<close>

fun unpack_loop :: "(nat \<times> experience) list \<Rightarrow> unpack_acc \<Rightarrow> unpack_acc" where
  "unpack_loop [] acc = acc"
| "unpack_loop ((idx, e) # rest) acc =
     unpack_loop rest
       (let acc1 = acc\<lparr>states := states acc @ [state e],
                       actions := actions acc @ [action e],
                       rewards := rewards acc @ [reward e]\<rparr>
        in case last_state e of
             None \<Rightarrow> acc1
           | Some ls \<Rightarrow> acc1\<lparr>not_done_idx := not_done_idx acc1 @ [idx],
                             last_states := last_states acc1 @ [ls]\<rparr>)"

text \<open>
  The float32 arithmetic of numpy is outside the sources; it is a parameter of the model.
  \<open>to_f32\<close> is the conversion of a Python float to float32, as
  \<open>np.array(rewards, dtype=np.float32)\<close> does it element by element; \<open>scale_f32 c v\<close> is the
  product of the Python float \<open>c\<close> and the float32 array element \<open>v\<close>; \<open>add_f32\<close> is the sum
  of two float32 values. A float32 value is given by the real it stands for; the
  infinities that numpy produces beyond the float32 range have no place in the model.
\<close>

record f32_ops =
  to_f32 :: "real \<Rightarrow> real"
  scale_f32 :: "real \<Rightarrow> real \<Rightarrow> real"
  add_f32 :: "real \<Rightarrow> real \<Rightarrow> real"

text \<open>
  \<open>a[idx] += b\<close> with an index list on a float32 array: numpy gathers \<open>a[idx]\<close>, adds \<open>b\<close>
  in float32 and scatters the sums back into \<open>a\<close>. In \<open>unpack_batch\<close> the indices are
  positions of the batch and \<open>b\<close> has one entry per index.
\<close>

definition iadd_at :: "f32_ops \<Rightarrow> real list \<Rightarrow> nat list \<Rightarrow> real list \<Rightarrow> real list" where
  "iadd_at fl a idx b =
     fold (\<lambda>(i, v) acc. acc[i := v]) (zip idx (map2 (add_f32 fl) (map ((!) a) idx) b)) a"

record unpacked =
  states_v :: "real list list"
  actions_t :: "nat list"
  ref_vals_v :: addr

text \<open>
  \<open>states_v\<close> and \<open>actions_t\<close> are fresh tensors and are returned by value; \<open>ref_vals_v\<close>
  shares its memory with the array \<open>rewards_np\<close> (\<open>torch.from_numpy\<close>) and is returned
  as that array's address. Line 76 converts the stored rewards to float32; line 83 scales
  the float32 values of the network by the Python float \<open>GAMMA ** REWARD_STEPS\<close> and adds
  in float32. The \<open>cuda\<close> branches copy tensors to the device and are left out.
\<close>

definition unpack_batch ::
  "f32_ops \<Rightarrow> experience list \<Rightarrow> net \<Rightarrow> world \<Rightarrow> unpacked \<times> world" where
  "unpack_batch fl batch n w =
     (let acc = unpack_loop (enumerate 0 batch)
                  \<lparr>states = [], actions = [], rewards = [], not_done_idx = [], last_states = []\<rparr>;
          sv = map (mem w) (states acc);
          (rewards_np, w1) = alloc (map (to_f32 fl) (rewards acc)) w;
          w2 = (if not_done_idx acc \<noteq> [] then
                  (let last_states_v = map (mem w1) (last_states acc);
                       (out, w') = call_net n last_states_v w1;
                       last_vals_np = map (\<lambda>row. row ! 0) (snd out)
                   in w'\<lparr>mem := (mem w')(rewards_np :=
                           iadd_at fl (mem w' rewards_np) (not_done_idx acc)
                             (map (scale_f32 fl (GAMMA ^ REWARD_STEPS)) last_vals_np))\<rparr>)
                else w1)
      in (\<lparr>states_v = sv, actions_t = actions acc, ref_vals_v = rewards_np\<rparr>, w2))"

subsection \<open>The actor: data\_func (lines 36 to 47)\<close>

text \<open>
  What travels through \<open>train_queue\<close>: a transition, a \<open>TotalReward\<close> report, or \<open>None\<close>,
  the end marker.
\<close>

datatype item = End_marker | Total_reward real | Transition experience

definition np_mean :: "real list \<Rightarrow> real" where
  "np_mean xs = sum_list xs / real (length xs)"

text \<open>
  The experience source is given by what it yields: for each iteration of the \<open>for\<close> loop
  the transition, and the list that \<open>pop_total_rewards()\<close> returns in that iteration. The
  second argument is the list of items put on the queue so far; \<open>put\<close> appends to it.
\<close>

fun data_loop :: "(experience \<times> real list) list \<Rightarrow> item list \<Rightarrow> item list" where
  "data_loop [] q = q"
| "data_loop ((e, new_rewards) # rest) q =
     data_loop rest
       ((if new_rewards \<noteq> [] then q @ [Total_reward (np_mean new_rewards)] else q)
          @ [Transition e])"

definition data_func :: "(experience \<times> real list) list \<Rightarrow> item list \<Rightarrow> item list" where
  "data_func exp_source q = data_loop exp_source q @ [End_marker]"

subsection \<open>The losses of the update (lines 141 to 149)\<close>

definition tensor_mean :: "real list \<Rightarrow> real" where
  "tensor_mean xs = sum_list xs / real (length xs)"

definition log_softmax :: "real list \<Rightarrow> real list" where
  "log_softmax row = map (\<lambda>x. x - ln (sum_list (map exp row))) row"

definition softmax :: "real list \<Rightarrow> real list" where
  "softmax row = map (\<lambda>x. exp x / sum_list (map exp row)) row"

text \<open>
  \<open>F.mse_loss\<close> of an \<open>(n, 1)\<close> input against an \<open>(n)\<close> target pairs the elements in
  storage order, as the tensor library of the code's time does.
\<close>

definition mse_loss :: "real list list \<Rightarrow> real list \<Rightarrow> real" where
  "mse_loss inp tgt = tensor_mean (map2 (\<lambda>x y. (x - y)\<^sup>2) (concat inp) tgt)"

definition loss_value_v :: "real list list \<Rightarrow> real list \<Rightarrow> real" where
  "loss_value_v value_v vals_ref_v = mse_loss value_v vals_ref_v"

definition log_prob_v :: "real list list \<Rightarrow> real list list" where
  "log_prob_v logits_v = map log_softmax logits_v"

text \<open>
  Line 144, \<open>vals_ref_v - value_v.detach()\<close>: \<open>vals_ref_v\<close> has shape \<open>(n)\<close> and \<open>value_v\<close>
  has shape \<open>(n, 1)\<close>, so the difference is broadcast to shape \<open>(n, n)\<close>: the entry in row
  \<open>i\<close> and column \<open>j\<close> is \<open>vals_ref_v[j] - value_v[i, 0]\<close>.
\<close>

definition adv_v :: "real list \<Rightarrow> real list list \<Rightarrow> real list list" where
  "adv_v vals_ref_v value_v = map (\<lambda>row. map (\<lambda>r. r - row ! 0) vals_ref_v) value_v"

text \<open>
  \<open>log_prob_v[range(BATCH_SIZE), actions_t]\<close> picks, for row \<open>i\<close>, the entry at that row's
  action; an action that is not a column of the row raises an index error.
\<close>

definition actions_in_range :: "real list list \<Rightarrow> nat list \<Rightarrow> bool" where
  "actions_in_range lp acts_t =
     list_all (\<lambda>(i, a). i < length lp \<and> a < length (lp ! i)) (zip [0..<BATCH_SIZE] acts_t)"

definition pick_actions :: "real list list \<Rightarrow> nat list \<Rightarrow> real list" where
  "pick_actions lp acts_t = map (\<lambda>(i, a). lp ! i ! a) (zip [0..<BATCH_SIZE] acts_t)"

text \<open>
  Line 145: the \<open>(n, n)\<close> advantage times the picked vector of shape \<open>(n)\<close>, broadcast along
  the rows. Line 146: the mean runs over all entries.
\<close>

definition log_prob_actions_v :: "real list list \<Rightarrow> real list list \<Rightarrow> real list \<Rightarrow> nat list \<Rightarrow> real list list" where
  "log_prob_actions_v logits_v value_v vals_ref_v acts_t =
     map (\<lambda>row. map2 (*) row (pick_actions (log_prob_v logits_v) acts_t))
       (adv_v vals_ref_v value_v)"

definition loss_policy_v :: "real list list \<Rightarrow> real list list \<Rightarrow> real list \<Rightarrow> nat list \<Rightarrow> real" where
  "loss_policy_v logits_v value_v vals_ref_v acts_t =
     - tensor_mean (concat (log_prob_actions_v logits_v value_v vals_ref_v acts_t))"

definition prob_v :: "real list list \<Rightarrow> real list list" where
  "prob_v logits_v = map softmax logits_v"

definition entropy_loss_v :: "real list list \<Rightarrow> real" where
  "entropy_loss_v logits_v =
     ENTROPY_BETA *
       tensor_mean (map (\<lambda>(p, lp). sum_list (map2 (*) p lp)) (zip (prob_v logits_v) (log_prob_v logits_v)))"

text \<open>Line 158, the loss of the second backward pass.\<close>

definition loss_v :: "real list list \<Rightarrow> real list list \<Rightarrow> real list \<Rightarrow> real" where
  "loss_v logits_v value_v vals_ref_v = entropy_loss_v logits_v + loss_value_v value_v vals_ref_v"

text \<open>The gradient statistics of lines 173 to 175; the vector is not empty, the network has parameters.\<close>

definition grad_l2 :: "real list \<Rightarrow> real" where
  "grad_l2 grads = sqrt (np_mean (map (\<lambda>g. g\<^sup>2) grads))"

definition grad_max :: "real list \<Rightarrow> real" where
  "grad_max grads = Max (set (map abs grads))"

definition grad_var :: "real list \<Rightarrow> real" where
  "grad_var grads = np_mean (map (\<lambda>g. (g - np_mean grads)\<^sup>2) grads)"

subsection \<open>The learner (lines 115 to 175)\<close>

text \<open>
  Modelled from the spec: automatic differentiation, gradient clipping and the optimizer
  belong to the tensor library, and the reward tracker to \<open>lib/common.py\<close>; none of them
  is part of the sources at hand, so they are parameters. \<open>net_of\<close> gives the network
  that a parameter vector stands for. \<open>backward f p g\<close> adds to the gradient buffers \<open>g\<close>
  the gradient at \<open>p\<close> of the loss \<open>f\<close>, a function of the parameters; a detached tensor
  is a constant of that function. \<open>flat_grads\<close> is the concatenation of line 153. \<open>f32\<close> is
  the float32 arithmetic of numpy that \<open>unpack_batch\<close> uses.
\<close>

record ('p, 'g, 'os, 'tr) lib =
  f32 :: f32_ops
  net_of :: "'p \<Rightarrow> net"
  zero_grad :: "'g \<Rightarrow> 'g"
  backward :: "('p \<Rightarrow> real) \<Rightarrow> 'p \<Rightarrow> 'g \<Rightarrow> 'g"
  flat_grads :: "'g \<Rightarrow> real list"
  clip_grad_norm :: "real \<Rightarrow> 'g \<Rightarrow> 'g"
  optimizer_step :: "'p \<Rightarrow> 'os \<Rightarrow> 'g \<Rightarrow> 'p \<times> 'os"
  tracker_reward :: "'tr \<Rightarrow> real \<Rightarrow> nat \<Rightarrow> bool \<times> 'tr"

datatype run_status = Running | Stopped_end | Stopped_reward | Crashed

record ('p, 'g, 'os, 'tr) learner =
  params :: 'p
  grad :: 'g
  opt_state :: 'os
  tracker :: 'tr
  batch :: "experience list"
  step_idx :: nat
  wrld :: world
  status :: run_status

text \<open>
  The loss of the first backward pass as a function of the parameters: the logits come
  from the parameters, the value tensor is the detached one of the forward pass.
\<close>

definition loss_policy_of ::
  "('p, 'g, 'os, 'tr) lib \<Rightarrow> real list list \<Rightarrow> real list list \<Rightarrow> real list \<Rightarrow> nat list \<Rightarrow> 'p \<Rightarrow> real" where
  "loss_policy_of L sv value_detached vals_ref_v acts_t p =
     loss_policy_v (fst (forward (net_of L p) sv)) value_detached vals_ref_v acts_t"

text \<open>The loss of the second backward pass as a function of the parameters.\<close>

definition loss_of ::
  "('p, 'g, 'os, 'tr) lib \<Rightarrow> real list list \<Rightarrow> real list \<Rightarrow> 'p \<Rightarrow> real" where
  "loss_of L sv vals_ref_v p =
     loss_v (fst (forward (net_of L p) sv)) (snd (forward (net_of L p) sv)) vals_ref_v"

text \<open>Lines 163 to 175: \<open>loss_v += loss_policy_v\<close>, then the ten tracked metrics.\<close>

definition tracks ::
  "real list list \<Rightarrow> real list list \<Rightarrow> real list \<Rightarrow> nat list \<Rightarrow> real list \<Rightarrow> nat \<Rightarrow> event list" where
  "tracks logits_v value_v vals_ref_v acts_t grads i =
     [Track ''advantage'' (Matrix (adv_v vals_ref_v value_v)) i,
      Track ''values'' (Matrix value_v) i,
      Track ''batch_rewards'' (Vector vals_ref_v) i,
      Track ''loss_entropy'' (Scalar (entropy_loss_v logits_v)) i,
      Track ''loss_policy'' (Scalar (loss_policy_v logits_v value_v vals_ref_v acts_t)) i,
      Track ''loss_value'' (Scalar (loss_value_v value_v vals_ref_v)) i,
      Track ''loss_total''
        (Scalar (loss_v logits_v value_v vals_ref_v + loss_policy_v logits_v value_v vals_ref_v acts_t)) i,
      Track ''grad_l2'' (Scalar (grad_l2 grads)) i,
      Track ''grad_max'' (Scalar (grad_max grads)) i,
      Track ''grad_var'' (Scalar (grad_var grads)) i]"

text \<open>
  Lines 135 to 175, run when the batch is full. An index error at line 145 ends the
  process: the status becomes \<open>Crashed\<close>.
\<close>

definition train_step ::
  "('p, 'g, 'os, 'tr) lib \<Rightarrow> ('p, 'g, 'os, 'tr) learner \<Rightarrow> ('p, 'g, 'os, 'tr) learner" where
  "train_step L s =
     (let n = net_of L (params s);
          (u, w1) = unpack_batch (f32 L) (batch s) n ((wrld s)\<lparr>trace := trace (wrld s) @ [Unpack (batch s)]\<rparr>);
          vals_ref_v = mem w1 (ref_vals_v u);
          g0 = zero_grad L (grad s);
          (out, w2) = call_net n (states_v u) (w1\<lparr>trace := trace w1 @ [Zero_grad]\<rparr>);
          logits_v = fst out;
          value_v = snd out
      in if \<not> actions_in_range (log_prob_v logits_v) (actions_t u)
         then s\<lparr>batch := [], grad := g0, wrld := w2, status := Crashed\<rparr>
         else
           (let g1 = backward L (loss_policy_of L (states_v u) value_v vals_ref_v (actions_t u)) (params s) g0;
                grads = flat_grads L g1;
                g2 = backward L (loss_of L (states_v u) vals_ref_v) (params s) g1;
                g3 = clip_grad_norm L CLIP_GRAD g2;
                (p', os') = optimizer_step L (params s) (opt_state s) g3
            in s\<lparr>batch := [], params := p', grad := g3, opt_state := os',
                 wrld := w2\<lparr>trace := trace w2 @
                   [Backward Loss_policy True, Capture_grads grads,
                    Backward Loss_entropy_value False, Clip_grad_norm CLIP_GRAD, Optimizer_step] @
                   tracks logits_v value_v vals_ref_v (actions_t u) grads (step_idx s)\<rparr>\<rparr>))"

text \<open>One iteration of the \<open>while True\<close> loop, for the item that \<open>train_queue.get()\<close> returned.\<close>

fun learner_step ::
  "('p, 'g, 'os, 'tr) lib \<Rightarrow> item \<Rightarrow> ('p, 'g, 'os, 'tr) learner \<Rightarrow> ('p, 'g, 'os, 'tr) learner" where
  "learner_step L End_marker s = s\<lparr>status := Stopped_end\<rparr>"
| "learner_step L (Total_reward r) s =
     (let (stop, tr) = tracker_reward L (tracker s) r (step_idx s)
      in if stop then s\<lparr>tracker := tr, status := Stopped_reward\<rparr> else s\<lparr>tracker := tr\<rparr>)"
| "learner_step L (Transition e) s =
     (let s1 = s\<lparr>step_idx := step_idx s + 1, batch := batch s @ [e]\<rparr>
      in if length (batch s1) < BATCH_SIZE then s1 else train_step L s1)"

text \<open>
  The loop, over the items that the queue hands out in order. It returns the state it
  ends in and the items it has not taken from the queue. A run that uses up the list
  without a \<open>break\<close> is left waiting at \<open>get()\<close>, with status \<open>Running\<close>.
\<close>

fun learner_loop ::
  "('p, 'g, 'os, 'tr) lib \<Rightarrow> item list \<Rightarrow> ('p, 'g, 'os, 'tr) learner \<Rightarrow>
     ('p, 'g, 'os, 'tr) learner \<times> item list" where
  "learner_loop L [] s = (s, [])"
| "learner_loop L (x # xs) s =
     (let s' = learner_step L x s
      in if status s' = Running then learner_loop L xs s' else (s', xs))"

text \<open>The state at line 120: empty batch, step index zero.\<close>

definition init_learner :: "'p \<Rightarrow> 'g \<Rightarrow> 'os \<Rightarrow> 'tr \<Rightarrow> world \<Rightarrow> ('p, 'g, 'os, 'tr) learner" where
  "init_learner p g os tr w =
     \<lparr>params = p, grad = g, opt_state = os, tracker = tr, batch = [], step_idx = 0,
      wrld = w, status = Running\<rparr>"

subsection \<open>Auxiliary notions and the concrete inputs of the examples\<close>

text \<open>The positions and the last states of the transitions that did not end an episode.\<close>

definition nd_of :: "nat \<Rightarrow> experience list \<Rightarrow> nat list" where
  "nd_of k xs =
     concat (map (\<lambda>(i, e). case last_state e of None \<Rightarrow> [] | Some a \<Rightarrow> [i]) (enumerate k xs))"

definition ls_of :: "experience list \<Rightarrow> addr list" where
  "ls_of xs = concat (map (\<lambda>e. case last_state e of None \<Rightarrow> [] | Some a \<Rightarrow> [a]) xs)"

text \<open>The entropy of the action distribution of one row of logits.\<close>

definition entropy :: "real list \<Rightarrow> real" where
  "entropy row = - sum_list (map (\<lambda>p. p * ln p) (softmax row))"

text \<open>The items that the learner has taken from the queue, given those it has left.\<close>

definition popped :: "item list \<Rightarrow> item list \<Rightarrow> item list" where
  "popped items rest = take (length items - length rest) items"

text \<open>
  The scenario of the specification: two observation arrays, a network whose value head
  gives 2 on the second one, two terminal transitions with rewards 1 and -1 and one
  transition with reward 0.5 that continues in the second array.
\<close>

definition scenario_world :: world where
  "scenario_world = \<lparr>mem = (\<lambda>_. [])(0 := [0], 1 := [1]), next_free = 2, trace = []\<rparr>"

definition scenario_net :: net where
  "scenario_net = \<lparr>policy_head = (\<lambda>x. [0, 0]), value_head = (\<lambda>x. if x = [1] then 2 else 0)\<rparr>"

definition scenario_batch :: "experience list" where
  "scenario_batch =
     [\<lparr>state = 0, action = 0, reward = 1, last_state = None\<rparr>,
      \<lparr>state = 0, action = 1, reward = - 1, last_state = None\<rparr>,
      \<lparr>state = 0, action = 0, reward = 1 / 2, last_state = Some 1\<rparr>]"

text \<open>
  Two instances of the float32 arithmetic. The first is exact arithmetic, the reading in
  which every float is the real it is written as. The second is IEEE 754 binary32: the
  nearest value with 24 significant bits, ties to the even one, with gradual underflow
  below \<open>2 ^ - 126\<close>; each operation is the exact one, rounded. It stands for numpy on
  magnitudes below \<open>2 ^ 128\<close>.
\<close>

definition exact_ops :: f32_ops where
  "exact_ops = \<lparr>to_f32 = (\<lambda>x. x), scale_f32 = (*), add_f32 = (+)\<rparr>"

definition round_even :: "real \<Rightarrow> int" where
  "round_even y =
     (let f = \<lfloor>y\<rfloor>; d = y - of_int f
      in if d < 1 / 2 then f else if 1 / 2 < d then f + 1 else if even f then f else f + 1)"

definition float32 :: "real \<Rightarrow> real" where
  "float32 x =
     (if x = 0 then 0
      else let e = max \<lfloor>log 2 \<bar>x\<bar>\<rfloor> (- 126);
               ulp = 2 powr (of_int e - 23)
           in of_int (round_even (x / ulp)) * ulp)"

definition ieee_ops :: f32_ops where
  "ieee_ops = \<lparr>to_f32 = float32,
                scale_f32 = (\<lambda>c v. float32 (float32 c * v)),
                add_f32 = (\<lambda>x y. float32 (x + y))\<rparr>"

text \<open>A batch of one terminal transition whose stored reward, 0.1, is not a float32 value.\<close>

definition tenth_batch :: "experience list" where
  "tenth_batch = [\<lparr>state = 0, action = 0, reward = 1 / 10, last_state = None\<rparr>]"

text \<open>A one-parameter instance of the library, with a finite difference for the gradient.\<close>

definition lib0 :: "(real, real, nat, real list) lib" where
  "lib0 = \<lparr>f32 = exact_ops,
           net_of = (\<lambda>p. \<lparr>policy_head = (\<lambda>x. [p, 0]), value_head = (\<lambda>x. p)\<rparr>),
           zero_grad = (\<lambda>g. 0),
           backward = (\<lambda>f p g. g + (f (p + 1) - f p)),
           flat_grads = (\<lambda>g. [g]),
           clip_grad_norm = (\<lambda>c g. max (- c) (min c g)),
           optimizer_step = (\<lambda>p os g. (p - LEARNING_RATE * g, Suc os)),
           tracker_reward = (\<lambda>tr r i. (18 < np_mean (tr @ [r]), tr @ [r]))\<rparr>"

definition learner0 :: "(real, real, nat, real list) learner" where
  "learner0 = init_learner 0 0 0 [] scenario_world"

text \<open>The batches handed to \<open>unpack_batch\<close> so far, and the transitions among some items.\<close>

definition unpacked_batches :: "event list \<Rightarrow> experience list list" where
  "unpacked_batches evs = concat (map (\<lambda>ev. case ev of Unpack b \<Rightarrow> [b] | _ \<Rightarrow> []) evs)"

definition transitions_of :: "item list \<Rightarrow> experience list" where
  "transitions_of items = concat (map (\<lambda>x. case x of Transition e \<Rightarrow> [e] | _ \<Rightarrow> []) items)"

text \<open>
  The invariant of the learner loop, relative to the list \<open>T\<close> of the transitions taken
  from the queue so far.
\<close>

definition batches_ok :: "('p, 'g, 'os, 'tr) learner \<Rightarrow> experience list \<Rightarrow> bool" where
  "batches_ok s T \<longleftrightarrow>
     concat (unpacked_batches (trace (wrld s))) @ batch s = T \<and>
     list_all (\<lambda>b. length b = BATCH_SIZE) (unpacked_batches (trace (wrld s))) \<and>
     length (batch s) < BATCH_SIZE \<and>
     step_idx s = length T \<and>
     count_list (trace (wrld s)) Optimizer_step + (if status s = Crashed then 1 else 0) =
       length (unpacked_batches (trace (wrld s)))"

text \<open>A full batch of terminal transitions, and the learner that holds it at line 135.\<close>

definition full_batch :: "experience list" where
  "full_batch = replicate 128 \<lparr>state = 0, action = 0, reward = 1, last_state = None\<rparr>"

definition full_learner :: "(real, real, nat, real list) learner" where
  "full_learner = learner0\<lparr>step_idx := 128, batch := full_batch\<rparr>"

text \<open>
  The policy loss in the words of the specification: the advantage of row \<open>i\<close> is the
  return of row \<open>i\<close> minus the value of row \<open>i\<close>, and the loss is the negated mean over the
  rows of the advantage times the log-probability of the row's own action.
\<close>

definition spec_policy_loss ::
  "real list list \<Rightarrow> real list list \<Rightarrow> real list \<Rightarrow> nat list \<Rightarrow> real" where
  "spec_policy_loss logits_v value_v vals_ref_v acts_t =
     - tensor_mean
         (map (\<lambda>i. (vals_ref_v ! i - value_v ! i ! 0) * log_softmax (logits_v ! i) ! (acts_t ! i))
            [0..<BATCH_SIZE])"

text \<open>
  A full batch on which the two differ: the network gives the logits \<open>[0, ln 3]\<close> on every
  observation and the value 1 on the first observation, 0 on the others; all returns are
  0; the first row took action 0 and the others action 1.
\<close>

definition bug_net :: net where
  "bug_net = \<lparr>policy_head = (\<lambda>x. [0, ln 3]), value_head = (\<lambda>x. if x = [1] then 1 else 0)\<rparr>"

definition bug_states :: "real list list" where
  "bug_states = [1] # replicate 127 [0]"

definition bug_logits :: "real list list" where
  "bug_logits = replicate 128 [0, ln 3]"

definition bug_value :: "real list list" where
  "bug_value = [1] # replicate 127 [0]"

definition bug_refs :: "real list" where
  "bug_refs = replicate 128 0"

definition bug_acts :: "nat list" where
  "bug_acts = 0 # replicate 127 1"

section \<open>Properties of unpack\_batch\<close>

lemma unpack_loop_closed:
  "unpack_loop (enumerate k xs) acc =
     acc\<lparr>states := states acc @ map state xs,
         actions := actions acc @ map action xs,
         rewards := rewards acc @ map reward xs,
         not_done_idx := not_done_idx acc @ nd_of k xs,
         last_states := last_states acc @ ls_of xs\<rparr>"
proof (induction xs arbitrary: k acc)
  case Nil
  show ?case by (simp add: nd_of_def ls_of_def)
next
  case (Cons e xs)
  show ?case
    by (cases "last_state e") (simp_all add: Cons.IH nd_of_def ls_of_def Let_def)
qed

lemma nd_of_Nil: "nd_of k [] = []"
  by (simp add: nd_of_def)


lemma nd_of_snoc:
  "nd_of k (xs @ [e]) =
     nd_of k xs @ (case last_state e of None \<Rightarrow> [] | Some a \<Rightarrow> [k + length xs])"
  by (simp add: nd_of_def enumerate_append_eq)





lemma nd_of_all_terminal: "\<forall>e \<in> set xs. last_state e = None \<Longrightarrow> nd_of k xs = []"
  by (induction xs rule: rev_induct) (simp_all add: nd_of_snoc nd_of_Nil)







text \<open>The whole function in one equation: what it returns and the world it leaves.\<close>

lemma unpack_batch_eq:
  "unpack_batch fl bat n w =
     (\<lparr>states_v = map (mem w) (map state bat), actions_t = map action bat,
       ref_vals_v = next_free w\<rparr>,
      if nd_of 0 bat \<noteq> [] then
        w\<lparr>mem := (mem w)(next_free w :=
               iadd_at fl (map (\<lambda>e. to_f32 fl (reward e)) bat) (nd_of 0 bat)
                 (map (\<lambda>a. scale_f32 fl (GAMMA ^ REWARD_STEPS)
                            (value_head n
                               (((mem w)(next_free w := map (\<lambda>e. to_f32 fl (reward e)) bat)) a)))
                    (ls_of bat))),
          next_free := Suc (next_free w),
          trace := trace w @
            [Net_eval (map ((mem w)(next_free w := map (\<lambda>e. to_f32 fl (reward e)) bat))
                         (ls_of bat))]\<rparr>
      else w\<lparr>mem := (mem w)(next_free w := map (\<lambda>e. to_f32 fl (reward e)) bat),
             next_free := Suc (next_free w)\<rparr>)"
  by (simp add: unpack_batch_def unpack_loop_closed alloc_def call_net_def forward_def Let_def o_def)

lemma unpack_batch_frame:
  "a < next_free w \<Longrightarrow> mem (snd (unpack_batch fl bat n w)) a = mem w a"
  by (simp add: unpack_batch_eq)




text \<open>
  C8. \<open>unpack_batch\<close> writes to one array only, the rewards array it has allocated itself:
  every array that was in the store before the call has the same contents after it, in
  particular the arrays that the transitions' \<open>state\<close> and \<open>last_state\<close> fields refer to.
  The tuples themselves, with their \<open>action\<close> and \<open>reward\<close>, are immutable values.
\<close>

theorem unpack_batch_leaves_transitions:
  assumes "\<forall>e \<in> set bat. state e < next_free w \<and> (\<forall>a. last_state e = Some a \<longrightarrow> a < next_free w)"
  shows "(\<forall>e \<in> set bat.
            mem (snd (unpack_batch fl bat n w)) (state e) = mem w (state e) \<and>
            (\<forall>a. last_state e = Some a \<longrightarrow> mem (snd (unpack_batch fl bat n w)) a = mem w a))
         \<and> (\<forall>a < next_free w. mem (snd (unpack_batch fl bat n w)) a = mem w a)
         \<and> ref_vals_v (fst (unpack_batch fl bat n w)) = next_free w
         \<and> next_free (snd (unpack_batch fl bat n w)) = Suc (next_free w)"
proof -
  have "\<forall>a < next_free w. mem (snd (unpack_batch fl bat n w)) a = mem w a"
    by (simp add: unpack_batch_frame)
  moreover have "ref_vals_v (fst (unpack_batch fl bat n w)) = next_free w"
    by (simp add: unpack_batch_eq)
  moreover have "next_free (snd (unpack_batch fl bat n w)) = Suc (next_free w)"
    by (simp add: unpack_batch_eq)
  ultimately show ?thesis
    using assms by simp
qed

theorem unpack_batch_leaves_transitions_witness:
  "mem (snd (unpack_batch ieee_ops scenario_batch scenario_net scenario_world)) 0 = [0] \<and>
   mem (snd (unpack_batch ieee_ops scenario_batch scenario_net scenario_world)) 1 = [1] \<and>
   ref_vals_v (fst (unpack_batch ieee_ops scenario_batch scenario_net scenario_world)) = 2"
  using unpack_batch_leaves_transitions [of scenario_batch scenario_world ieee_ops scenario_net]
  by (simp add: scenario_batch_def scenario_world_def)

lemma floor_log_tenth: "\<lfloor>log 2 (1 / 10 :: real)\<rfloor> = - 4"
proof -
  have "(2::real) powr (of_int (- 4)) \<le> 1 / 10 \<and> 1 / 10 < (2::real) powr (of_int (- 4 + 1))"
    by (simp add: powr_minus_divide)
  then show ?thesis
    using floor_log_eq_powr_iff [of "1 / 10 :: real" 2 "- 4"] by simp
qed

lemma float32_tenth: "float32 (1 / 10) = 13421773 / 134217728"
proof -
  have u: "(2::real) powr (- 27) = 1 / 134217728"
    by (simp add: powr_minus_divide)
  have f: "\<lfloor>(1 / 10 :: real) / (1 / 134217728)\<rfloor> = 13421772"
    by (simp add: floor_eq_iff)
  have "round_even ((1 / 10 :: real) / (1 / 134217728)) = 13421773"
    unfolding round_even_def f by (simp add: Let_def)
  then show ?thesis
    by (simp add: float32_def floor_log_tenth u Let_def)
qed

lemma float32_tie: "float32 16777217 = 16777216"
proof -
  have "(2::real) powr (of_int 24) \<le> 16777217 \<and> 16777217 < (2::real) powr (of_int (24 + 1))"
    by simp
  then have l: "\<lfloor>log 2 (16777217 :: real)\<rfloor> = 24"
    using floor_log_eq_powr_iff [of "16777217 :: real" 2 24] by simp
  have f: "\<lfloor>(16777217 :: real) / 2\<rfloor> = 8388608"
    by (simp add: floor_eq_iff)
  have "round_even ((16777217 :: real) / 2) = 8388608"
    unfolding round_even_def f by (simp add: Let_def)
  then show ?thesis
    by (simp add: float32_def l Let_def)
qed

lemma float32_one: "float32 1 = 1" and float32_minus_one: "float32 (- 1) = - 1"
  by (simp_all add: float32_def round_even_def Let_def powr_minus_divide)

text \<open>
  C10, as stated: with no last state in the batch the returned vector would be the stored
  rewards exactly. In binary32 a stored reward of 0.1 comes back as 13421773 / 134217728.
\<close>

theorem unpack_batch_all_terminal_counterexample:
  "mem (snd (unpack_batch ieee_ops tenth_batch scenario_net scenario_world))
       (ref_vals_v (fst (unpack_batch ieee_ops tenth_batch scenario_net scenario_world))) =
     [13421773 / 134217728]
   \<and> map reward tenth_batch = [1 / 10]
   \<and> mem (snd (unpack_batch ieee_ops tenth_batch scenario_net scenario_world))
         (ref_vals_v (fst (unpack_batch ieee_ops tenth_batch scenario_net scenario_world))) \<noteq>
       map reward tenth_batch"
  by (simp add: unpack_batch_eq tenth_batch_def nd_of_def ieee_ops_def float32_tenth
      enumerate_eq_zip)

text \<open>
  C10, amended. When no transition of the batch has a last state, \<open>unpack_batch\<close> does not
  evaluate the network (the trace of calls is as before) and the returned vector is the
  list of the stored rewards converted to float32.
\<close>

theorem unpack_batch_all_terminal:
  assumes "\<forall>e \<in> set bat. last_state e = None"
  shows "trace (snd (unpack_batch fl bat n w)) = trace w \<and>
         mem (snd (unpack_batch fl bat n w)) (ref_vals_v (fst (unpack_batch fl bat n w))) =
           map (\<lambda>e. to_f32 fl (reward e)) bat"
  using nd_of_all_terminal [OF assms, of 0] by (simp add: unpack_batch_eq)

theorem unpack_batch_all_terminal_witness:
  "trace (snd (unpack_batch ieee_ops (take 2 scenario_batch) scenario_net scenario_world)) = [] \<and>
   mem (snd (unpack_batch ieee_ops (take 2 scenario_batch) scenario_net scenario_world))
       (ref_vals_v (fst (unpack_batch ieee_ops (take 2 scenario_batch) scenario_net scenario_world))) =
     [1, - 1]"
  using unpack_batch_all_terminal [of "take 2 scenario_batch" ieee_ops scenario_net scenario_world]
  by (simp add: scenario_batch_def scenario_world_def ieee_ops_def float32_one float32_minus_one)

section \<open>Properties of the actor\<close>

lemma data_loop_closed:
  "data_loop src q =
     q @ concat (map (\<lambda>(e, rs). (if rs \<noteq> [] then [Total_reward (np_mean rs)] else [])
                                 @ [Transition e]) src)"
  by (induction src arbitrary: q) auto

text \<open>
  C6. The items that an actor puts on the queue are, iteration by iteration, the report of
  that iteration, if there is one, followed by the transition of that iteration; the end
  marker comes once, as the last item, after the loop.
\<close>

theorem data_func_order:
  "data_func src q =
     q @ concat (map (\<lambda>(e, rs). (if rs \<noteq> [] then [Total_reward (np_mean rs)] else [])
                                 @ [Transition e]) src)
       @ [End_marker]
   \<and> last (data_func src q) = End_marker
   \<and> End_marker \<notin> set (concat (map (\<lambda>(e, rs). (if rs \<noteq> [] then [Total_reward (np_mean rs)] else [])
                                               @ [Transition e]) src))"
  by (auto simp: data_func_def data_loop_closed split: if_splits)

section \<open>Properties of the losses\<close>

lemma sum_list_exp_pos: "row \<noteq> [] \<Longrightarrow> 0 < sum_list (map exp row)" for row :: "real list"
proof (induction row)
  case Nil
  then show ?case by simp
next
  case (Cons x xs)
  have "0 \<le> sum_list (map exp xs)"
    by (rule sum_list_nonneg) auto
  moreover have "0 < exp x" by simp
  ultimately show ?case by (simp add: add_pos_nonneg)
qed

lemma log_softmax_is_ln_softmax:
  "map2 (*) (softmax row) (log_softmax row) = map (\<lambda>p. p * ln p) (softmax row)"
proof -
  let ?S = "sum_list (map exp row)"
  have "map2 (*) (softmax row) (log_softmax row) = map (\<lambda>x. (exp x / ?S) * (x - ln ?S)) row"
    by (simp add: softmax_def log_softmax_def zip_map_map zip_same_conv_map o_def)
  also have "\<dots> = map (\<lambda>x. (exp x / ?S) * ln (exp x / ?S)) row"
  proof (rule map_cong [OF refl])
    fix x assume "x \<in> set row"
    then have "row \<noteq> []" by auto
    then have "0 < ?S" by (rule sum_list_exp_pos)
    then have "ln (exp x / ?S) = x - ln ?S"
      by (simp add: ln_div)
    then show "exp x / ?S * (x - ln ?S) = exp x / ?S * ln (exp x / ?S)"
      by simp
  qed
  also have "\<dots> = map (\<lambda>p. p * ln p) (softmax row)"
    by (simp add: softmax_def o_def)
  finally show ?thesis .
qed

lemma entropy_loss_v_rows:
  "entropy_loss_v logits_v =
     ENTROPY_BETA *
       tensor_mean (map (\<lambda>row. sum_list (map2 (*) (softmax row) (log_softmax row))) logits_v)"
  by (simp add: entropy_loss_v_def prob_v_def log_prob_v_def zip_map_map zip_same_conv_map o_def)

text \<open>
  C5. The entropy loss is \<open>ENTROPY_BETA\<close>, which is 0.01, times the mean over the rows of
  the sum over the actions of softmax times log-softmax, that is, of the negated entropy of
  the row; the loss of the second backward pass is the entropy loss plus the value loss.
\<close>

theorem entropy_loss_v_is_negative_entropy:
  "entropy_loss_v logits_v =
     ENTROPY_BETA *
       tensor_mean (map (\<lambda>row. sum_list (map2 (*) (softmax row) (log_softmax row))) logits_v)
   \<and> entropy_loss_v logits_v = ENTROPY_BETA * tensor_mean (map (\<lambda>row. - entropy row) logits_v)
   \<and> ENTROPY_BETA = 1 / 100
   \<and> loss_v logits_v value_v vals_ref_v = entropy_loss_v logits_v + loss_value_v value_v vals_ref_v
   \<and> loss_of L sv vals_ref_v p =
       entropy_loss_v (fst (forward (net_of L p) sv)) +
       loss_value_v (snd (forward (net_of L p) sv)) vals_ref_v"
  by (simp add: entropy_loss_v_rows log_softmax_is_ln_softmax entropy_def ENTROPY_BETA_def
      loss_v_def loss_of_def)

section \<open>Properties of the policy loss\<close>

text \<open>The advantage tensor of line 144, entry by entry.\<close>

lemma adv_v_entry:
  "i < length value_v \<Longrightarrow> j < length vals_ref_v \<Longrightarrow>
   adv_v vals_ref_v value_v ! i ! j = vals_ref_v ! j - value_v ! i ! 0"
  by (simp add: adv_v_def)

lemma pick_actions_replicate:
  "length acts = 128 \<Longrightarrow> pick_actions (replicate 128 row) acts = map ((!) row) acts"
  by (rule nth_equalityI) (simp_all add: pick_actions_def BATCH_SIZE_def)

lemma log_softmax_bug: "log_softmax [0, ln 3] = [- ln 4, ln 3 - ln 4]"
  by (simp add: log_softmax_def)

lemma replicate_128: "replicate 128 x = x # replicate 127 x"
proof -
  have "(128::nat) = Suc 127"
    by simp
  then show ?thesis
    by (simp only: replicate_Suc)
qed

lemma bug_forward: "forward bug_net bug_states = (bug_logits, bug_value)"
  by (simp add: forward_def bug_net_def bug_states_def bug_logits_def bug_value_def replicate_128)

lemma bug_picked:
  "pick_actions (log_prob_v bug_logits) bug_acts = (- ln 4) # replicate 127 (ln 3 - ln 4)"
  by (simp add: log_prob_v_def bug_logits_def bug_acts_def pick_actions_replicate log_softmax_bug)

lemma bug_adv: "adv_v bug_refs bug_value = replicate 128 (- 1) # replicate 127 (replicate 128 0)"
  by (simp add: adv_v_def bug_refs_def bug_value_def)

lemma map2_replicate_left:
  "length ys = n \<Longrightarrow> map2 (*) (replicate n c) ys = map ((*) c) ys" for c :: real
  by (simp add: zip_replicate1 o_def)

lemma sum_list_concat_replicate:
  "sum_list (concat (replicate n ys)) = real n * sum_list ys" for ys :: "real list"
  by (induction n) (simp_all add: algebra_simps)

lemma length_concat_replicate: "length (concat (replicate n ys)) = n * length ys"
  by (induction n) simp_all

lemma bug_code_value:
  "loss_policy_v bug_logits bug_value bug_refs bug_acts = (127 * ln 3 - 128 * ln 4) / 16384"
proof -
  let ?picked = "(- ln 4) # replicate 127 (ln 3 - ln 4) :: real list"
  have l: "length ?picked = 128" by simp
  have r0: "map2 (*) (replicate 128 (- 1)) ?picked = map ((*) (- 1)) ?picked"
    using l by (rule map2_replicate_left)
  have r1: "map2 (*) (replicate 128 0) ?picked = map ((*) 0) ?picked"
    using l by (rule map2_replicate_left)
  have m: "log_prob_actions_v bug_logits bug_value bug_refs bug_acts =
           map ((*) (- 1)) ?picked # replicate 127 (map ((*) 0) ?picked)"
    unfolding log_prob_actions_v_def bug_picked bug_adv by (simp only: list.map map_replicate r0 r1)
  have s: "sum_list (concat (log_prob_actions_v bug_logits bug_value bug_refs bug_acts))
           = 128 * ln 4 - 127 * ln 3"
    unfolding m
    by (simp add: sum_list_concat_replicate sum_list_replicate o_def sum_list_const_mult)
  have n: "length (concat (log_prob_actions_v bug_logits bug_value bug_refs bug_acts)) = 16384"
    unfolding m by (simp add: length_concat_replicate)
  show ?thesis
    by (simp add: loss_policy_v_def tensor_mean_def s n field_simps)
qed

lemma bug_spec_value:
  "spec_policy_loss bug_logits bug_value bug_refs bug_acts = - ln 4 / 128"
proof -
  let ?f = "\<lambda>i. (bug_refs ! i - bug_value ! i ! 0) * log_softmax (bug_logits ! i) ! (bug_acts ! i)"
  have z: "?f i = 0" if "i \<in> set [1..<128]" for i
  proof -
    have "1 \<le> i" and "i < 128"
      using that by auto
    then obtain k where k: "i = Suc k" "k < 127"
      by (cases i) auto
    show ?thesis
      by (simp add: k bug_refs_def bug_value_def)
  qed
  have u: "[0..<128] = 0 # [1..<128]"
    by (simp add: upt_conv_Cons)
  have "map ?f [1..<128] = map (\<lambda>i. 0) [1..<128]"
    by (rule map_cong [OF refl]) (rule z)
  then have "sum_list (map ?f [1..<128]) = 0"
    by (simp only: sum_list_0)
  moreover have "?f 0 = ln 4"
    by (simp add: bug_refs_def bug_value_def bug_logits_def bug_acts_def log_softmax_bug)
  ultimately have "sum_list (map ?f [0..<128]) = ln 4"
    unfolding u by simp
  then show ?thesis
    by (simp add: spec_policy_loss_def tensor_mean_def BATCH_SIZE_def)
qed

text \<open>
  C4. On the tensors of this batch the policy loss that the code computes is not the loss
  of the specification: the advantage is a square matrix, and the mean over all its entries
  weighs the log-probability of a row's action with the returns minus the mean of all the
  values, not with the return minus the value of that row.
\<close>

theorem loss_policy_v_broadcast:
  "forward bug_net bug_states = (bug_logits, bug_value)
   \<and> loss_policy_v bug_logits bug_value bug_refs bug_acts = (127 * ln 3 - 128 * ln 4) / 16384
   \<and> spec_policy_loss bug_logits bug_value bug_refs bug_acts = - ln 4 / 128
   \<and> loss_policy_v bug_logits bug_value bug_refs bug_acts
       \<noteq> spec_policy_loss bug_logits bug_value bug_refs bug_acts"
proof -
  have "ln (3::real) \<noteq> 0"
    by simp
  then have "(127 * ln 3 - 128 * ln 4) / 16384 \<noteq> - ln (4::real) / 128"
    by (simp add: field_simps)
  then show ?thesis
    by (simp only: bug_forward bug_code_value bug_spec_value simp_thms)
qed

section \<open>Properties of the update step\<close>

lemma unpacked_batches_append:
  "unpacked_batches (xs @ ys) = unpacked_batches xs @ unpacked_batches ys"
  by (simp add: unpacked_batches_def)

lemma transitions_of_append:
  "transitions_of (xs @ ys) = transitions_of xs @ transitions_of ys"
  by (simp add: transitions_of_def)

lemma unpacked_batches_simps:
  "unpacked_batches [] = []"
  "unpacked_batches (Unpack b # evs) = b # unpacked_batches evs"
  "unpacked_batches (Net_eval xs # evs) = unpacked_batches evs"
  "unpacked_batches (Zero_grad # evs) = unpacked_batches evs"
  "unpacked_batches (Backward l r # evs) = unpacked_batches evs"
  "unpacked_batches (Capture_grads g # evs) = unpacked_batches evs"
  "unpacked_batches (Clip_grad_norm c # evs) = unpacked_batches evs"
  "unpacked_batches (Optimizer_step # evs) = unpacked_batches evs"
  "unpacked_batches (Track nm v i # evs) = unpacked_batches evs"
  by (simp_all add: unpacked_batches_def)

lemma transitions_of_simps:
  "transitions_of [] = []"
  "transitions_of (End_marker # xs) = transitions_of xs"
  "transitions_of (Total_reward r # xs) = transitions_of xs"
  "transitions_of (Transition e # xs) = e # transitions_of xs"
  by (simp_all add: transitions_of_def)

lemma unpacked_batches_tracks: "unpacked_batches (tracks a b c d e f) = []"
  by (simp add: tracks_def unpacked_batches_simps)

lemma count_tracks: "count_list (tracks a b c d e f) Optimizer_step = 0"
  by (simp add: tracks_def)

lemma unpack_batch_trace:
  "unpacked_batches (trace (snd (unpack_batch fl bat n w))) = unpacked_batches (trace w)"
  "count_list (trace (snd (unpack_batch fl bat n w))) Optimizer_step =
     count_list (trace w) Optimizer_step"
  by (simp_all add: unpack_batch_eq unpacked_batches_append unpacked_batches_simps)

lemma train_step_fields:
  "batch (train_step L s) = []"
  "step_idx (train_step L s) = step_idx s"
  "status (train_step L s) = status s \<or> status (train_step L s) = Crashed"
  "tracker (train_step L s) = tracker s"
  by (simp_all add: train_step_def Let_def call_net_def case_prod_beta)

lemma train_step_trace:
  "trace (wrld (train_step L s)) =
    (let n = net_of L (params s);
         U = unpack_batch (f32 L) (batch s) n ((wrld s)\<lparr>trace := trace (wrld s) @ [Unpack (batch s)]\<rparr>);
         vals_ref = mem (snd U) (ref_vals_v (fst U));
         sv = states_v (fst U);
         acts = actions_t (fst U);
         logits = fst (forward n sv);
         value = snd (forward n sv);
         g1 = backward L (loss_policy_of L sv value vals_ref acts) (params s) (zero_grad L (grad s))
     in trace (snd U) @ [Zero_grad, Net_eval sv] @
        (if actions_in_range (log_prob_v logits) acts
         then [Backward Loss_policy True, Capture_grads (flat_grads L g1),
               Backward Loss_entropy_value False, Clip_grad_norm CLIP_GRAD, Optimizer_step] @
              tracks logits value vals_ref acts (flat_grads L g1) (step_idx s)
         else []))"
  by (simp add: train_step_def Let_def call_net_def case_prod_beta)

lemma train_step_unpacked:
  "unpacked_batches (trace (wrld (train_step L s))) = unpacked_batches (trace (wrld s)) @ [batch s]"
  by (simp add: train_step_trace Let_def unpacked_batches_append unpacked_batches_simps
      unpacked_batches_tracks unpack_batch_trace)

lemma train_step_count:
  "status s = Running \<Longrightarrow>
   count_list (trace (wrld (train_step L s))) Optimizer_step =
     count_list (trace (wrld s)) Optimizer_step + (if status (train_step L s) = Crashed then 0 else 1)"
  by (simp add: train_step_trace Let_def count_tracks unpack_batch_trace)
    (simp add: train_step_def Let_def call_net_def case_prod_beta)

lemma train_step_status_ok:
  "actions_in_range
     (log_prob_v (fst (forward (net_of L (params s))
        (states_v (fst (unpack_batch (f32 L) (batch s) (net_of L (params s))
           ((wrld s)\<lparr>trace := trace (wrld s) @ [Unpack (batch s)]\<rparr>)))))))
     (actions_t (fst (unpack_batch (f32 L) (batch s) (net_of L (params s))
        ((wrld s)\<lparr>trace := trace (wrld s) @ [Unpack (batch s)]\<rparr>)))) \<Longrightarrow>
   status (train_step L s) = status s"
  by (simp add: train_step_def Let_def call_net_def case_prod_beta)

lemma actions_in_range_replicate:
  "a < length row \<Longrightarrow> actions_in_range (replicate 128 row) (replicate 128 a)"
  by (auto simp: actions_in_range_def list_all_iff BATCH_SIZE_def in_set_zip)

lemma full_batch_unpack:
  "fst (unpack_batch fl full_batch n w) =
     \<lparr>states_v = replicate 128 (mem w 0), actions_t = replicate 128 0, ref_vals_v = next_free w\<rparr>"
  by (simp add: unpack_batch_eq full_batch_def)

lemma learner0_fields:
  "batch learner0 = []" "trace (wrld learner0) = []" "step_idx learner0 = 0"
  "status learner0 = Running" "tracker learner0 = []"
  by (simp_all add: learner0_def init_learner_def scenario_world_def)

lemma full_learner_status: "status full_learner = Running"
  by (simp add: full_learner_def learner0_fields)

lemma full_learner_in_range:
  "actions_in_range
     (log_prob_v (fst (forward (net_of lib0 (params full_learner))
        (states_v (fst (unpack_batch (f32 lib0) (batch full_learner) (net_of lib0 (params full_learner))
           ((wrld full_learner)\<lparr>trace := trace (wrld full_learner) @ [Unpack (batch full_learner)]\<rparr>)))))))
     (actions_t (fst (unpack_batch (f32 lib0) (batch full_learner) (net_of lib0 (params full_learner))
        ((wrld full_learner)\<lparr>trace := trace (wrld full_learner) @ [Unpack (batch full_learner)]\<rparr>))))"
  by (simp add: full_learner_def full_batch_unpack forward_def log_prob_v_def
      actions_in_range_replicate log_softmax_def lib0_def)

text \<open>
  C2. When no action is out of range, the update of a full batch makes these calls, in this
  order, after those of \<open>unpack_batch\<close>: the gradients are zeroed and the network is
  evaluated; the policy loss alone is backpropagated with the graph retained; the
  flattened gradient is captured, and it goes to the tracked statistics only; the entropy
  loss plus the value loss is backpropagated onto the same buffers; the gradient norm is
  clipped to 0.1; the optimizer steps once, on the clipped sum of the two gradients.
\<close>

theorem train_step_two_phase:
  assumes "length (batch s) = BATCH_SIZE"
  shows
  "let n = net_of L (params s);
       U = unpack_batch (f32 L) (batch s) n ((wrld s)\<lparr>trace := trace (wrld s) @ [Unpack (batch s)]\<rparr>);
       vals_ref = mem (snd U) (ref_vals_v (fst U));
       sv = states_v (fst U);
       acts = actions_t (fst U);
       logits = fst (forward n sv);
       value = snd (forward n sv);
       g1 = backward L (loss_policy_of L sv value vals_ref acts) (params s) (zero_grad L (grad s));
       g2 = backward L (loss_of L sv vals_ref) (params s) g1
   in actions_in_range (log_prob_v logits) acts \<longrightarrow>
        trace (wrld (train_step L s)) =
          trace (snd U) @
          [Zero_grad, Net_eval sv,
           Backward Loss_policy True, Capture_grads (flat_grads L g1),
           Backward Loss_entropy_value False, Clip_grad_norm (1 / 10), Optimizer_step] @
          tracks logits value vals_ref acts (flat_grads L g1) (step_idx s)
        \<and> (\<forall>p. loss_policy_of L sv value vals_ref acts p =
                  loss_policy_v (fst (forward (net_of L p) sv)) value vals_ref acts)
        \<and> (\<forall>p. loss_of L sv vals_ref p =
                  entropy_loss_v (fst (forward (net_of L p) sv)) +
                  loss_value_v (snd (forward (net_of L p) sv)) vals_ref)
        \<and> grad (train_step L s) = clip_grad_norm L (1 / 10) g2
        \<and> (params (train_step L s), opt_state (train_step L s)) =
            optimizer_step L (params s) (opt_state s) (clip_grad_norm L (1 / 10) g2)
        \<and> count_list (trace (wrld (train_step L s))) Optimizer_step =
            count_list (trace (wrld s)) Optimizer_step + 1
        \<and> status (train_step L s) = status s"
  by (simp add: train_step_trace Let_def count_tracks unpack_batch_trace CLIP_GRAD_def
      loss_policy_of_def loss_of_def loss_v_def)
    (simp add: train_step_def Let_def call_net_def case_prod_beta CLIP_GRAD_def)

theorem train_step_two_phase_witness:
  "count_list (trace (wrld (train_step lib0 full_learner))) Optimizer_step = 1
   \<and> status (train_step lib0 full_learner) = Running"
proof -
  have len: "length (batch full_learner) = BATCH_SIZE"
    by (simp add: full_learner_def full_batch_def BATCH_SIZE_def)
  have "count_list (trace (wrld (train_step lib0 full_learner))) Optimizer_step =
          count_list (trace (wrld full_learner)) Optimizer_step + 1
        \<and> status (train_step lib0 full_learner) = status full_learner"
    using train_step_two_phase [OF len, of lib0, unfolded Let_def] full_learner_in_range
    by blast
  then show ?thesis
    by (simp add: full_learner_def learner0_fields)
qed

section \<open>Properties of the learner loop\<close>

lemma popped_append: "popped (pre @ rest) rest = pre"
  by (simp add: popped_def)

lemma learner_step_status_end:
  "status (learner_step L x s) = Stopped_end \<Longrightarrow> status s \<noteq> Stopped_end \<Longrightarrow> x = End_marker"
proof (cases x)
  case End_marker
  then show ?thesis by simp
next
  case (Total_reward r)
  assume "status (learner_step L x s) = Stopped_end" "status s \<noteq> Stopped_end"
  then show ?thesis
    using Total_reward by (simp add: case_prod_beta split: if_splits)
next
  case (Transition e)
  assume a: "status (learner_step L x s) = Stopped_end" "status s \<noteq> Stopped_end"
  show ?thesis
  proof (cases "length (batch s @ [e]) < BATCH_SIZE")
    case True
    then show ?thesis using a Transition by (simp add: Let_def)
  next
    case False
    then show ?thesis
      using a Transition
        train_step_fields(3) [of L "s\<lparr>step_idx := step_idx s + 1, batch := batch s @ [e]\<rparr>"]
      by (auto simp: Let_def)
  qed
qed

lemma learner_loop_popped:
  "\<exists>pre. items = pre @ snd (learner_loop L items s)"
proof (induction items arbitrary: s)
  case Nil
  show ?case by simp
next
  case (Cons x xs)
  show ?case
  proof (cases "status (learner_step L x s) = Running")
    case True
    obtain pre where "xs = pre @ snd (learner_loop L xs (learner_step L x s))"
      using Cons.IH by blast
    then have "x # xs = (x # pre) @ snd (learner_loop L (x # xs) s)"
      using True by (simp add: Let_def)
    then show ?thesis by blast
  next
    case False
    then have "x # xs = [x] @ snd (learner_loop L (x # xs) s)"
      by (simp add: Let_def)
    then show ?thesis by blast
  qed
qed

lemma learner_loop_stopped_end:
  "status (fst (learner_loop L items s)) = Stopped_end \<Longrightarrow> status s = Running \<Longrightarrow>
   \<exists>pre. items = pre @ End_marker # snd (learner_loop L items s) \<and> End_marker \<notin> set pre"
proof (induction items arbitrary: s)
  case Nil
  then show ?case by simp
next
  case (Cons x xs)
  show ?case
  proof (cases "status (learner_step L x s) = Running")
    case True
    then have r: "learner_loop L (x # xs) s = learner_loop L xs (learner_step L x s)"
      by (simp add: Let_def)
    obtain pre where p: "xs = pre @ End_marker # snd (learner_loop L xs (learner_step L x s))"
        "End_marker \<notin> set pre"
      using Cons.IH [OF _ True] Cons.prems(1) r by auto
    have "x \<noteq> End_marker"
      using True by auto
    then have "x # xs = (x # pre) @ End_marker # snd (learner_loop L (x # xs) s) \<and>
               End_marker \<notin> set (x # pre)"
      using p r by auto
    then show ?thesis by blast
  next
    case False
    then have r: "learner_loop L (x # xs) s = (learner_step L x s, xs)"
      by (simp add: Let_def)
    then have "status (learner_step L x s) = Stopped_end"
      using Cons.prems(1) by simp
    then have "x = End_marker"
      using Cons.prems(2) by (auto dest: learner_step_status_end)
    then have "x # xs = [] @ End_marker # snd (learner_loop L (x # xs) s) \<and> End_marker \<notin> set []"
      using r by simp
    then show ?thesis by blast
  qed
qed

lemma learner_loop_append:
  "status (fst (learner_loop L pre s)) = Running \<Longrightarrow>
   learner_loop L (pre @ post) s = learner_loop L post (fst (learner_loop L pre s))"
proof (induction pre arbitrary: s)
  case Nil
  show ?case by simp
next
  case (Cons x xs)
  show ?case
  proof (cases "status (learner_step L x s) = Running")
    case True
    then show ?thesis
      using Cons.IH [of "learner_step L x s"] Cons.prems by (simp add: Let_def)
  next
    case False
    then show ?thesis
      using Cons.prems by (simp add: Let_def)
  qed
qed

text \<open>
  C3, as stated: the loop would stop on end markers only after as many of them as there
  are actor processes. With four end markers on the queue it stops after taking one.
\<close>

theorem learner_loop_first_sentinel_counterexample:
  "status (fst (learner_loop lib0 [End_marker, End_marker, End_marker, End_marker] learner0)) =
     Stopped_end
   \<and> count_list
        (popped [End_marker, End_marker, End_marker, End_marker]
           (snd (learner_loop lib0 [End_marker, End_marker, End_marker, End_marker] learner0)))
        End_marker \<noteq> PROCESSES_COUNT"
  by (simp add: popped_def PROCESSES_COUNT_def)

text \<open>
  C3, amended. The loop stops at the first end marker it takes from the queue: a run that
  stops on an end marker has taken exactly one, as its last item, and an end marker that
  follows items which leave the loop running stops it, with everything behind it left on
  the queue. There is no count of live actors.
\<close>

theorem learner_loop_stops_at_first_sentinel:
  assumes "status s = Running"
  shows "(status (fst (learner_loop L items s)) = Stopped_end \<longrightarrow>
           count_list (popped items (snd (learner_loop L items s))) End_marker = 1 \<and>
           last (popped items (snd (learner_loop L items s))) = End_marker)
         \<and> (status (fst (learner_loop L pre s)) = Running \<longrightarrow>
              status (fst (learner_loop L (pre @ End_marker # post) s)) = Stopped_end \<and>
              snd (learner_loop L (pre @ End_marker # post) s) = post)"
proof -
  have a: "count_list (popped items (snd (learner_loop L items s))) End_marker = 1 \<and>
           last (popped items (snd (learner_loop L items s))) = End_marker"
    if h: "status (fst (learner_loop L items s)) = Stopped_end"
  proof -
    obtain pre where p: "items = pre @ End_marker # snd (learner_loop L items s)"
        "End_marker \<notin> set pre"
      using learner_loop_stopped_end [OF h assms] by blast
    have "items = (pre @ [End_marker]) @ snd (learner_loop L items s)"
      using p(1) by simp
    then have "popped items (snd (learner_loop L items s)) = pre @ [End_marker]"
      using popped_append [of "pre @ [End_marker]" "snd (learner_loop L items s)"] by simp
    then show ?thesis
      using p(2) by (simp add: count_list_0_iff)
  qed
  have b: "status (fst (learner_loop L (pre @ End_marker # post) s)) = Stopped_end \<and>
           snd (learner_loop L (pre @ End_marker # post) s) = post"
    if h: "status (fst (learner_loop L pre s)) = Running"
    using learner_loop_append [OF h, of "End_marker # post"] by (simp add: Let_def)
  show ?thesis
    using a b by blast
qed

theorem learner_loop_stops_at_first_sentinel_witness:
  "status (fst (learner_loop lib0 [Total_reward 1, End_marker, End_marker] learner0)) = Stopped_end
   \<and> snd (learner_loop lib0 [Total_reward 1, End_marker, End_marker] learner0) = [End_marker]
   \<and> count_list
        (popped [Total_reward 1, End_marker, End_marker]
           (snd (learner_loop lib0 [Total_reward 1, End_marker, End_marker] learner0)))
        End_marker = 1"
proof -
  let ?items = "[Total_reward 1, End_marker, End_marker]"
  have r: "status (fst (learner_loop lib0 [Total_reward 1] learner0)) = Running"
    by (simp add: lib0_def np_mean_def learner0_fields)
  note th = learner_loop_stops_at_first_sentinel
    [OF learner0_fields(4), of lib0 ?items "[Total_reward 1]" "[End_marker]"]
  have "status (fst (learner_loop lib0 ([Total_reward 1] @ End_marker # [End_marker]) learner0))
          = Stopped_end
        \<and> snd (learner_loop lib0 ([Total_reward 1] @ End_marker # [End_marker]) learner0)
          = [End_marker]"
    using th r by blast
  then have a: "status (fst (learner_loop lib0 ?items learner0)) = Stopped_end"
    and b: "snd (learner_loop lib0 ?items learner0) = [End_marker]"
    by simp_all
  have "count_list (popped ?items (snd (learner_loop lib0 ?items learner0))) End_marker = 1"
    using th a by blast
  then show ?thesis
    using a b by blast
qed

lemma step_keeps_invariant:
  assumes "batches_ok s T" and "status s = Running"
  shows "batches_ok (learner_step L x s) (T @ transitions_of [x])"
proof (cases x)
  case End_marker
  then show ?thesis using assms by (simp add: batches_ok_def transitions_of_simps)
next
  case (Total_reward r)
  then show ?thesis using assms by (simp add: batches_ok_def transitions_of_simps case_prod_beta)
next
  case (Transition e)
  let ?s1 = "s\<lparr>step_idx := step_idx s + 1, batch := batch s @ [e]\<rparr>"
  show ?thesis
  proof (cases "length (batch ?s1) < BATCH_SIZE")
    case True
    then show ?thesis
      using assms Transition by (simp add: batches_ok_def transitions_of_simps Let_def)
  next
    case False
    then have len: "length (batch s @ [e]) = BATCH_SIZE"
      using assms(1) by (simp add: batches_ok_def)
    have st: "status ?s1 = Running"
      using assms(2) by simp
    have step: "learner_step L x s = train_step L ?s1"
      using False Transition by (simp add: Let_def)
    have c: "count_list (trace (wrld (train_step L ?s1))) Optimizer_step
             + (if status (train_step L ?s1) = Crashed then 1 else 0)
             = Suc (count_list (trace (wrld s)) Optimizer_step)"
      using train_step_count [OF st, of L] by simp
    show ?thesis
      unfolding step
      using assms len c Transition
      by (simp add: batches_ok_def train_step_unpacked train_step_fields transitions_of_simps
          BATCH_SIZE_def)
  qed
qed

lemma loop_keeps_invariant:
  assumes "batches_ok s T" and "status s = Running"
  shows "batches_ok (fst (learner_loop L items s))
           (T @ transitions_of (popped items (snd (learner_loop L items s))))"
  using assms
proof (induction items arbitrary: s T)
  case Nil
  then show ?case by (simp add: popped_def transitions_of_simps)
next
  case (Cons x xs)
  have ok: "batches_ok (learner_step L x s) (T @ transitions_of [x])"
    using Cons.prems by (rule step_keeps_invariant)
  show ?case
  proof (cases "status (learner_step L x s) = Running")
    case True
    obtain pre where p: "xs = pre @ snd (learner_loop L xs (learner_step L x s))"
      using learner_loop_popped by blast
    have r: "learner_loop L (x # xs) s = learner_loop L xs (learner_step L x s)"
      using True by (simp add: Let_def)
    have "popped xs (snd (learner_loop L xs (learner_step L x s))) = pre"
      using popped_append [of pre "snd (learner_loop L xs (learner_step L x s))"] p by simp
    moreover have "popped (x # xs) (snd (learner_loop L xs (learner_step L x s))) = x # pre"
      using popped_append [of "x # pre" "snd (learner_loop L xs (learner_step L x s))"] p by simp
    ultimately have "transitions_of (popped (x # xs) (snd (learner_loop L (x # xs) s)))
          = transitions_of [x] @ transitions_of (popped xs (snd (learner_loop L xs (learner_step L x s))))"
      using r transitions_of_append [of "[x]" pre] by simp
    then show ?thesis
      using Cons.IH [OF ok True] r by simp
  next
    case False
    then have r: "learner_loop L (x # xs) s = (learner_step L x s, xs)"
      by (simp add: Let_def)
    have "popped (x # xs) xs = [x]"
      using popped_append [of "[x]" xs] by simp
    then show ?thesis
      using ok r by simp
  qed
qed

lemma length_concat_uniform:
  "list_all (\<lambda>b. length b = n) bs \<Longrightarrow> length (concat bs) = n * length bs"
  by (induction bs) auto

lemma learner_loop_fill:
  "length (batch s) + length es < BATCH_SIZE \<Longrightarrow> status s = Running \<Longrightarrow>
   learner_loop L (map Transition es) s =
     (s\<lparr>step_idx := step_idx s + length es, batch := batch s @ es\<rparr>, [])"
proof (induction es arbitrary: s)
  case Nil
  show ?case by simp
next
  case (Cons e es)
  let ?s1 = "s\<lparr>step_idx := step_idx s + 1, batch := batch s @ [e]\<rparr>"
  have st: "learner_step L (Transition e) s = ?s1"
    using Cons.prems by (simp add: Let_def)
  have "learner_loop L (map Transition es) ?s1 =
          (?s1\<lparr>step_idx := step_idx ?s1 + length es, batch := batch ?s1 @ es\<rparr>, [])"
    using Cons.prems by (intro Cons.IH) simp_all
  then show ?case
    using Cons.prems(2) st by (simp add: Let_def)
qed

lemma replicate_127_snoc: "replicate 127 x @ [x] = replicate 128 x"
proof -
  have "replicate 127 x @ replicate 1 x = replicate (127 + 1) x"
    by (simp only: replicate_add)
  then show ?thesis by simp
qed

lemma full_run:
  "learner_loop lib0 (map Transition full_batch) learner0 = (train_step lib0 full_learner, [])"
proof -
  let ?e = "\<lparr>state = 0, action = 0, reward = 1, last_state = None\<rparr>"
  let ?s = "learner0\<lparr>step_idx := 127, batch := replicate 127 ?e\<rparr>"
  have i: "map Transition full_batch = map Transition (replicate 127 ?e) @ [Transition ?e]"
    by (simp add: full_batch_def flip: replicate_127_snoc)
  have f: "learner_loop lib0 (map Transition (replicate 127 ?e)) learner0 = (?s, [])"
    using learner_loop_fill [of learner0 "replicate 127 ?e" lib0]
    by (simp add: learner0_fields BATCH_SIZE_def)
  have r: "status (fst (learner_loop lib0 (map Transition (replicate 127 ?e)) learner0)) = Running"
    by (simp only: f fst_conv) (simp add: learner0_fields)
  have s1: "learner_step lib0 (Transition ?e) ?s = train_step lib0 full_learner"
    by (simp add: Let_def BATCH_SIZE_def learner0_fields full_learner_def
        full_batch_def replicate_127_snoc)
  have "status (train_step lib0 full_learner) = Running"
    using train_step_status_ok [OF full_learner_in_range]
    by (simp add: full_learner_status)
  then have "learner_loop lib0 [Transition ?e] ?s = (train_step lib0 full_learner, [])"
    using s1 by (simp add: Let_def del: learner_step.simps)
  then show ?thesis
    unfolding i using learner_loop_append [OF r, of "[Transition ?e]"] by (simp only: f fst_conv)
qed

text \<open>
  C7. From the state at the start of the loop: the batches handed to \<open>unpack_batch\<close>,
  followed by the batch being filled, are the transitions taken from the queue, each once
  and in order; every batch handed over has \<open>BATCH_SIZE\<close> transitions; the batch being
  filled is shorter; so there is one update for every \<open>BATCH_SIZE\<close> transitions, and one
  optimizer step for each update that did not end in an index error.
\<close>

theorem learner_loop_batches:
  assumes "batch s = []" and "trace (wrld s) = []" and "step_idx s = 0" and "status s = Running"
  shows "concat (unpacked_batches (trace (wrld (fst (learner_loop L items s)))))
           @ batch (fst (learner_loop L items s))
         = transitions_of (popped items (snd (learner_loop L items s)))
       \<and> list_all (\<lambda>b. length b = BATCH_SIZE)
           (unpacked_batches (trace (wrld (fst (learner_loop L items s)))))
       \<and> length (batch (fst (learner_loop L items s))) < BATCH_SIZE
       \<and> length (unpacked_batches (trace (wrld (fst (learner_loop L items s)))))
         = length (transitions_of (popped items (snd (learner_loop L items s)))) div BATCH_SIZE
       \<and> count_list (trace (wrld (fst (learner_loop L items s)))) Optimizer_step
           + (if status (fst (learner_loop L items s)) = Crashed then 1 else 0)
         = length (unpacked_batches (trace (wrld (fst (learner_loop L items s)))))
       \<and> step_idx (fst (learner_loop L items s))
         = length (transitions_of (popped items (snd (learner_loop L items s))))"
proof -
  let ?s' = "fst (learner_loop L items s)"
  let ?T = "transitions_of (popped items (snd (learner_loop L items s)))"
  have "batches_ok s []"
    using assms by (simp add: batches_ok_def unpacked_batches_simps BATCH_SIZE_def)
  then have ok: "batches_ok ?s' ([] @ ?T)"
    using assms(4) by (rule loop_keeps_invariant)
  then have c: "concat (unpacked_batches (trace (wrld ?s'))) @ batch ?s' = ?T"
    and u: "list_all (\<lambda>b. length b = BATCH_SIZE) (unpacked_batches (trace (wrld ?s')))"
    and l: "length (batch ?s') < BATCH_SIZE"
    by (simp_all add: batches_ok_def)
  have "length ?T = BATCH_SIZE * length (unpacked_batches (trace (wrld ?s'))) + length (batch ?s')"
    using c length_concat_uniform [OF u] by (metis length_append)
  then have d: "length (unpacked_batches (trace (wrld ?s'))) = length ?T div BATCH_SIZE"
    using l by simp
  show ?thesis
    using ok d by (simp add: batches_ok_def)
qed

theorem learner_loop_batches_witness:
  "unpacked_batches (trace (wrld (fst (learner_loop lib0 (map Transition full_batch) learner0))))
     = [full_batch]
   \<and> batch (fst (learner_loop lib0 (map Transition full_batch) learner0)) = []
   \<and> count_list (trace (wrld (fst (learner_loop lib0 (map Transition full_batch) learner0))))
        Optimizer_step = 1"
proof -
  let ?r = "learner_loop lib0 (map Transition full_batch) learner0"
  have p: "popped (map Transition full_batch) (snd ?r) = map Transition full_batch"
    by (simp add: full_run popped_def)
  have t: "transitions_of (map Transition full_batch) = full_batch"
    by (simp add: transitions_of_def o_def)
  have l: "length full_batch = 128"
    by (simp add: full_batch_def)
  have st: "status (fst ?r) = Running"
    using train_step_status_ok [OF full_learner_in_range]
    by (simp add: full_run full_learner_status)
  note th = learner_loop_batches [OF learner0_fields(1-4), of lib0 "map Transition full_batch", unfolded p t l]
  from th have n: "length (unpacked_batches (trace (wrld (fst ?r)))) = 1"
    by (simp add: BATCH_SIZE_def)
  from th have c: "concat (unpacked_batches (trace (wrld (fst ?r)))) @ batch (fst ?r) = full_batch"
    by simp
  from th have u: "list_all (\<lambda>b. length b = 128) (unpacked_batches (trace (wrld (fst ?r))))"
    by (simp add: BATCH_SIZE_def)
  from th st n have o: "count_list (trace (wrld (fst ?r))) Optimizer_step = 1"
    by simp
  obtain b where b: "unpacked_batches (trace (wrld (fst ?r))) = [b]"
    using n by (cases "unpacked_batches (trace (wrld (fst ?r)))") auto
  have "length b = 128"
    using u b by simp
  moreover have "length (b @ batch (fst ?r)) = 128"
    using c b l by simp
  ultimately have e: "batch (fst ?r) = []"
    by simp
  then have "b = full_batch"
    using c b by simp
  then show ?thesis
    using b o e by simp
qed

end
